theory Spec2Isabelle
  imports Main "HOL-Library.Sublist"
begin

section \<open>JavaScript string primitives used by the frontend\<close>

text \<open>
  A JavaScript string is modelled as a \<^typ>\<open>string\<close>; one \<^typ>\<open>char\<close> stands for one
  code unit in the range U+0000..U+00FF. The white space of \<open>String.prototype.trim\<close> and of
  the regular-expression class \<open>\s\<close> is, in that range, TAB, LF, VT, FF, CR, SPACE and the
  no-break space U+00A0.
\<close>

definition isWhiteSpace :: "char \<Rightarrow> bool" where
  "isWhiteSpace c =
     (c = CHR 0x09 \<or> c = CHR 0x0A \<or> c = CHR 0x0B \<or> c = CHR 0x0C \<or> c = CHR 0x0D
      \<or> c = CHR 0x20 \<or> c = CHR 0xA0)"

text \<open>\<open>s.trim()\<close>: white space removed from both ends.\<close>

definition trim :: "string \<Rightarrow> string" where
  "trim s = rev (dropWhile isWhiteSpace (rev (dropWhile isWhiteSpace s)))"

text \<open>
  \<open>s.split(sep)\<close> for a one-character separator: the pieces between the separators, in
  order, empty pieces included; a string without the separator is its only piece.
\<close>

fun split :: "char \<Rightarrow> string \<Rightarrow> string list" where
  "split sep [] = [[]]"
| "split sep (c # cs) =
     (if c = sep then [] # split sep cs
      else (case split sep cs of
              [] \<Rightarrow> [[c]]
            | w # ws \<Rightarrow> (c # w) # ws))"


subsection \<open>Regular expressions\<close>

text \<open>
  Regular expressions over character classes. \<open>validateEmail\<close>'s pattern uses classes,
  concatenation and \<open>+\<close>; taking derivatives adds alternation, \<open>*\<close> and the two constants.
  \<open>test\<close> on a pattern anchored by \<open>^\<close> and \<open>$\<close> (no flags) holds iff the whole string
  matches; matching is by derivatives.
\<close>

datatype rx =
    RNever
  | REps
  | RClass "char \<Rightarrow> bool"
  | RSeq rx rx
  | RAlt rx rx
  | RStar rx

definition OneOrMore :: "rx \<Rightarrow> rx" where
  "OneOrMore r = RSeq r (RStar r)"

fun nullable :: "rx \<Rightarrow> bool" where
  "nullable RNever = False"
| "nullable REps = True"
| "nullable (RClass p) = False"
| "nullable (RSeq r s) = (nullable r \<and> nullable s)"
| "nullable (RAlt r s) = (nullable r \<or> nullable s)"
| "nullable (RStar r) = True"

fun deriv :: "char \<Rightarrow> rx \<Rightarrow> rx" where
  "deriv c RNever = RNever"
| "deriv c REps = RNever"
| "deriv c (RClass p) = (if p c then REps else RNever)"
| "deriv c (RSeq r s) =
     (if nullable r then RAlt (RSeq (deriv c r) s) (deriv c s) else RSeq (deriv c r) s)"
| "deriv c (RAlt r s) = RAlt (deriv c r) (deriv c s)"
| "deriv c (RStar r) = RSeq (deriv c r) (RStar r)"

fun matches :: "rx \<Rightarrow> string \<Rightarrow> bool" where
  "matches r [] = nullable r"
| "matches r (c # cs) = matches (deriv c r) cs"

text \<open>
  What the expressions mean, to check the matcher against: the set of strings of an
  expression. \<open>conc\<close> is concatenation of two sets, \<open>iter\<close> repetition.
\<close>

definition conc :: "string set \<Rightarrow> string set \<Rightarrow> string set" where
  "conc A B = {u @ v | u v. u \<in> A \<and> v \<in> B}"

inductive_set iter :: "string set \<Rightarrow> string set" for L :: "string set" where
  iter_Nil: "[] \<in> iter L"
| iter_app: "u \<in> L \<Longrightarrow> v \<in> iter L \<Longrightarrow> u @ v \<in> iter L"

fun lang :: "rx \<Rightarrow> string set" where
  "lang RNever = {}"
| "lang REps = {[]}"
| "lang (RClass p) = {[c] | c. p c}"
| "lang (RSeq r s) = conc (lang r) (lang s)"
| "lang (RAlt r s) = lang r \<union> lang s"
| "lang (RStar r) = iter (lang r)"

section \<open>frontend/app.js\<close>

subsection \<open>validateEmail\<close>

text \<open>The class \<open>[^\s@]\<close>.\<close>

definition notSpaceOrAt :: "char \<Rightarrow> bool" where
  "notSpaceOrAt c = (\<not> isWhiteSpace c \<and> c \<noteq> CHR ''@'')"

text \<open>\<open>const emailRegex = /^[^\s@]+@[^\s@]+\.[^\s@]+$/\<close>\<close>

definition emailRegex :: rx where
  "emailRegex =
     RSeq (OneOrMore (RClass notSpaceOrAt))
      (RSeq (RClass (\<lambda>c. c = CHR ''@''))
        (RSeq (OneOrMore (RClass notSpaceOrAt))
          (RSeq (RClass (\<lambda>c. c = CHR ''.''))
            (OneOrMore (RClass notSpaceOrAt)))))"

definition emailRegex_test :: "string \<Rightarrow> bool" where
  "emailRegex_test s = matches emailRegex s"


subsection \<open>Page state\<close>

text \<open>
  The module's two globals (\<open>currentJobId\<close>, \<open>pollInterval\<close>) and the parts of the page
  its functions write. \<open>pollInterval\<close> holds the handle of the armed interval timer, or
  \<open>null\<close>: \<open>setInterval\<close> is called by \<open>startPolling\<close> only, which stores the handle and
  first clears a timer still armed; \<open>clearInterval\<close> is otherwise called by \<open>stopPolling\<close>
  only, which then stores \<open>null\<close>. So the timer that calls \<open>checkJobStatus\<close> is armed
  exactly while \<open>pollInterval\<close> is set. \<open>nextHandle\<close> is the handle the next \<open>setInterval\<close>
  returns. \<open>downloadPdfJobId\<close> and \<open>viewDataJobId\<close> are the \<open>data-job-id\<close> attributes of
  the two result buttons, \<open>lastCompletedJob\<close> the entry in local storage. \<open>fetched\<close> lists the URLs
  passed to \<open>fetch\<close>, in order. Elements looked up by id without a null check in the source
  are taken to be present, as in the page the script ships with. The calls of
  \<open>window.debugLogger?.log\<close> are left out: they append to the logger's own list and post
  the entry to the debug endpoint, and touch nothing the functions below read.
\<close>

record app_page =
  currentJobId :: "string option"
  pollInterval :: "nat option"
  nextHandle :: nat
  progressFill :: string
  progressText :: string
  stepClasses :: "string \<Rightarrow> string set"
  formDisplay :: string
  progressDisplay :: string
  resultsDisplay :: string
  errorDisplay :: string
  errorText :: string
  submitDisabled :: bool
  downloadPdfJobId :: "string option"
  viewDataJobId :: "string option"
  lastCompletedJob :: "string option"
  fetched :: "string list"

definition API_BASE_URL :: string where
  "API_BASE_URL = ''http://localhost:5000/api/sentiment''"

text \<open>Truthiness of a string-or-null value: \<open>null\<close> and the empty string are falsy.\<close>

fun truthy :: "string option \<Rightarrow> bool" where
  "truthy None = False"
| "truthy (Some s) = (s \<noteq> [])"

text \<open>A string-or-null value inside a template literal, and \<open>v || d\<close>.\<close>

fun interpolate :: "string option \<Rightarrow> string" where
  "interpolate None = ''null''"
| "interpolate (Some s) = s"

fun orElse :: "string option \<Rightarrow> string \<Rightarrow> string" where
  "orElse None d = d"
| "orElse (Some s) d = (if s = [] then d else s)"

text \<open>Decimal rendering of a number inside a template literal.\<close>

fun showNat :: "nat \<Rightarrow> string" where
  "showNat n =
     (if n < 10 then [''0123456789'' ! n]
      else showNat (n div 10) @ [''0123456789'' ! (n mod 10)])"

definition showInt :: "int \<Rightarrow> string" where
  "showInt i = (if i < 0 then CHR ''-'' # showNat (nat (- i)) else showNat (nat i))"

subsection \<open>stopPolling, showError, showResults\<close>

definition stopPolling :: "app_page \<Rightarrow> app_page" where
  "stopPolling st =
     (case pollInterval st of
        Some h \<Rightarrow> st\<lparr>pollInterval := None\<rparr>
      | None \<Rightarrow> st)"

definition showError :: "string \<Rightarrow> app_page \<Rightarrow> app_page" where
  "showError message st =
     stopPolling
       (st\<lparr>progressDisplay := ''none'', resultsDisplay := ''none'',
           errorDisplay := ''block'', errorText := message, submitDisabled := False\<rparr>)"

text \<open>
  \<open>showResults\<close> also calls \<open>initializeChatbot(currentJobId)\<close> (modelled below, on the
  chat widget's own state) and renders the quick statistics it fetches from the analysis
  service; of these only the \<open>fetch\<close> touches the state kept here.
\<close>

definition showResults :: "app_page \<Rightarrow> app_page" where
  "showResults st =
     st\<lparr>progressDisplay := ''none'', resultsDisplay := ''block'',
        downloadPdfJobId := Some (interpolate (currentJobId st)),
        viewDataJobId := Some (interpolate (currentJobId st)),
        lastCompletedJob := Some (interpolate (currentJobId st)),
        fetched := fetched st @
          [''http://localhost:8000/api/results/'' @ interpolate (currentJobId st) @ ''/data'']\<rparr>"

subsection \<open>updateProgress\<close>

text \<open>The literal table of \<open>updateProgress\<close>: element id and threshold.\<close>

definition steps :: "(string \<times> int) list" where
  "steps =
     [(''step-init'', 10),
      (''step-download'', 20),
      (''step-extract'', 30),
      (''step-analyze'', 40),
      (''step-summarize'', 60),
      (''step-recommend'', 75),
      (''step-pdf'', 90),
      (''step-complete'', 100)]"

text \<open>The body of the \<open>forEach\<close>: \<open>classList.add\<close> and \<open>classList.remove\<close> on one step.\<close>

definition updateStep :: "int \<Rightarrow> string \<times> int \<Rightarrow> app_page \<Rightarrow> app_page" where
  "updateStep progress step st =
     (let cl = stepClasses st (fst step);
          cl' =
            (if progress \<ge> snd step then insert ''completed'' cl - {''active''}
             else if progress \<ge> snd step - 10 then insert ''active'' cl - {''completed''}
             else cl - {''active'', ''completed''})
      in st\<lparr>stepClasses := (stepClasses st)(fst step := cl')\<rparr>)"

definition updateProgress :: "int \<Rightarrow> string \<Rightarrow> app_page \<Rightarrow> app_page" where
  "updateProgress progress status st =
     fold (updateStep progress) steps
       (st\<lparr>progressFill := showInt progress @ ''%'',
           progressText := showInt progress @ ''%''\<rparr>)"

subsection \<open>checkJobStatus and the polling loop\<close>

text \<open>
  What one status request can come back with: \<open>fetch\<close> rejects (with the error's message),
  or a response arrives with its HTTP status code and a body that \<open>response.json()\<close> either
  rejects or parses into the fields \<open>checkJobStatus\<close> reads: the status, the progress (an
  integer, as in the Gateway's \<open>JobStatus\<close>) and the optional message.
\<close>

record status_data =
  sd_status :: string
  sd_progress :: int
  sd_message :: "string option"

datatype status_body = BadJson string | Data status_data

datatype status_response = FetchFailed string | Response nat status_body

text \<open>\<open>response.ok\<close>\<close>

definition ok :: "nat \<Rightarrow> bool" where
  "ok code = (200 \<le> code \<and> code \<le> 299)"

text \<open>The \<open>catch\<close> block of \<open>checkJobStatus\<close>.\<close>

definition statusCheckFailed :: "string \<Rightarrow> app_page \<Rightarrow> app_page" where
  "statusCheckFailed msg st = showError (''Failed to check job status: '' @ msg) (stopPolling st)"

definition checkJobStatus :: "status_response \<Rightarrow> app_page \<Rightarrow> app_page" where
  "checkJobStatus r st =
     (if \<not> truthy (currentJobId st) then stopPolling st
      else
        let st1 = st\<lparr>fetched := fetched st @
                    [API_BASE_URL @ ''/status/'' @ interpolate (currentJobId st)]\<rparr>
        in case r of
             FetchFailed msg \<Rightarrow> statusCheckFailed msg st1
           | Response code body \<Rightarrow>
               if \<not> ok code then
                 statusCheckFailed (''HTTP error! status: '' @ showNat code) st1
               else
                 (case body of
                    BadJson msg \<Rightarrow> statusCheckFailed msg st1
                  | Data d \<Rightarrow>
                      let st2 = updateProgress (sd_progress d) (sd_status d) st1
                      in if sd_status d = ''completed'' then showResults (stopPolling st2)
                         else if sd_status d = ''failed'' then
                           showError
                             (orElse (sd_message d) ''Analysis failed. Please try again.'')
                             (stopPolling st2)
                         else st2))"

text \<open>
  \<open>startPolling\<close>: clear a timer that is still armed, arm a new one, check at once.
\<close>

definition startPolling :: "status_response \<Rightarrow> app_page \<Rightarrow> app_page" where
  "startPolling r st =
     checkJobStatus r
       (st\<lparr>pollInterval := Some (nextHandle st), nextHandle := Suc (nextHandle st)\<rparr>)"


section \<open>frontend/chatbot.js\<close>

subsection \<open>Widget state\<close>

text \<open>
  The module's globals and the elements of the chat widget. An element the source looks up
  by id is an option: \<open>None\<close> when the page has no such element (the source tests for
  that in places, and fails with a \<open>TypeError\<close> where it does not). \<open>chatMessages\<close> is the
  transcript: the children of the messages container. \<open>listeners\<close> are the registrations
  made by \<open>addEventListener\<close>, in order; every registration passes a fresh arrow function,
  so none is ever dropped as a duplicate. \<open>requests\<close> are the calls of \<open>fetch\<close>, in order.
  As in \<open>app.js\<close>, the calls of \<open>window.debugLogger?.log\<close> are left out. An \<open>async\<close>
  function is run to its end on the reply its request gets, before the next event.
\<close>

datatype sender = User | Assistant

datatype chat_node = Bubble sender string | TypingIndicator

record input_el =
  el_value :: string
  el_disabled :: bool

datatype target = ToggleChatBtn | CloseChatBtn | SendChatBtn | ChatInput | Document

datatype handler = ToggleWidget | CloseWidget | SendOnClick | SendOnEnter | SendOnSuggestion

datatype request = ChatPost string string bool | SuggestionsGet string

record chat_page =
  chatbotJobId :: "string option"
  chatbotInitialized :: bool
  sendButtonClickCount :: nat
  sendButtonClickTimes :: "string list"
  toggleChatBtn :: "string option"
  closeChatBtn :: bool
  sendChatBtn :: "bool option"
  chatInput :: "input_el option"
  inputFocused :: bool
  chatbotWidget :: "string option"
  chatMessages :: "chat_node list option"
  suggestedQuestions :: "string list option"
  listeners :: "(target \<times> string \<times> handler) list"
  requests :: "request list"

subsection \<open>displaySuggestedQuestions, addMessageToChat, addTypingIndicator\<close>

text \<open>
  The container's children after the call are the chips of \<open>suggestions.slice(0, 6)\<close>, each
  with the suggestion as its text.
\<close>

definition displaySuggestedQuestions :: "string list \<Rightarrow> chat_page \<Rightarrow> chat_page" where
  "displaySuggestedQuestions suggestions st =
     (case suggestedQuestions st of
        None \<Rightarrow> st
      | Some old \<Rightarrow> st\<lparr>suggestedQuestions := Some (take 6 suggestions)\<rparr>)"

definition addMessageToChat :: "string \<Rightarrow> sender \<Rightarrow> chat_page \<Rightarrow> chat_page" where
  "addMessageToChat txt who st =
     (case chatMessages st of
        None \<Rightarrow> st
      | Some ms \<Rightarrow> st\<lparr>chatMessages := Some (ms @ [Bubble who txt])\<rparr>)"

text \<open>Returns whether an indicator element was created (\<open>null\<close> otherwise).\<close>

definition addTypingIndicator :: "chat_page \<Rightarrow> bool \<times> chat_page" where
  "addTypingIndicator st =
     (case chatMessages st of
        None \<Rightarrow> (False, st)
      | Some ms \<Rightarrow> (True, st\<lparr>chatMessages := Some (ms @ [TypingIndicator])\<rparr>))"

text \<open>
  \<open>typingIndicator.remove()\<close> on the element \<open>addTypingIndicator\<close> appended: the last
  indicator of the transcript.
\<close>

definition removeTypingIndicator :: "chat_page \<Rightarrow> chat_page" where
  "removeTypingIndicator st =
     (case chatMessages st of
        None \<Rightarrow> st
      | Some ms \<Rightarrow> st\<lparr>chatMessages := Some (rev (remove1 TypingIndicator (rev ms)))\<rparr>)"

subsection \<open>sendMessage\<close>

text \<open>
  What the chat request can come back with: \<open>fetch\<close> (or the reading of the body)
  rejects; or the response is \<open>ok\<close> and carries a body that \<open>response.json()\<close> rejects
  (\<open>None\<close>) or parses into the answer, taken to be a string, and the optional list of
  suggested questions; or the response is not \<open>ok\<close> and carries the error text, which
  \<open>JSON.parse\<close> turns into an object with optional \<open>detail\<close>, \<open>error\<close> and \<open>message\<close>, or
  rejects.
\<close>

datatype error_body = ErrorJson "string option" "string option" "string option" | ErrorText string

datatype chat_response =
    ChatFetchFailed
  | ChatOk "(string \<times> string list option) option"
  | ChatNotOk error_body

fun errorMessage :: "error_body \<Rightarrow> string" where
  "errorMessage (ErrorJson detail err message) =
     orElse detail (orElse err (orElse message ''An error occurred''))"
| "errorMessage (ErrorText txt) = orElse (Some txt) ''An error occurred''"

text \<open>
  Where \<open>sendMessage\<close> ends: at its first \<open>return\<close> (the question is empty), at its second
  (no job id), at its end, or with a \<open>TypeError\<close> that leaves the function.
\<close>

datatype send_exit = EmptyQuestion | NoActiveJob | Finished | TypeError

text \<open>
  The \<open>catch\<close> block. With no indicator element, \<open>typingIndicator.remove()\<close> fails again
  and the error leaves the function (after \<open>finally\<close>).
\<close>

definition chatCatch :: "bool \<Rightarrow> chat_page \<Rightarrow> bool \<times> chat_page" where
  "chatCatch indicator st =
     (if \<not> indicator then (True, st)
      else (False,
            addMessageToChat ''Sorry, I could not process your question. Please try again.''
              Assistant (removeTypingIndicator st)))"

text \<open>The \<open>try\<close> block after \<open>fetch\<close>, with its \<open>catch\<close>; returns whether an error escapes.\<close>

definition chatTry :: "chat_response \<Rightarrow> bool \<Rightarrow> chat_page \<Rightarrow> bool \<times> chat_page" where
  "chatTry r indicator st =
     (case r of
        ChatFetchFailed \<Rightarrow> chatCatch indicator st
      | ChatOk None \<Rightarrow> chatCatch indicator st
      | ChatOk (Some (answer, suggested_questions)) \<Rightarrow>
          if \<not> indicator then chatCatch indicator st
          else
            let st1 = addMessageToChat answer Assistant (removeTypingIndicator st)
            in (False,
                case suggested_questions of
                  None \<Rightarrow> st1
                | Some qs \<Rightarrow> displaySuggestedQuestions qs st1)
      | ChatNotOk eb \<Rightarrow>
          if \<not> indicator then chatCatch indicator st
          else (False,
                addMessageToChat (''Sorry, I encountered an error: '' @ errorMessage eb)
                  Assistant (removeTypingIndicator st)))"

definition sendMessage :: "chat_response \<Rightarrow> chat_page \<Rightarrow> send_exit \<times> chat_page" where
  "sendMessage r st =
     (case chatInput st of
        None \<Rightarrow> (TypeError, st)
      | Some inp \<Rightarrow>
          (let question = trim (el_value inp) in
           if question = [] then (EmptyQuestion, st)
           else if \<not> truthy (chatbotJobId st) then
             (NoActiveJob,
              addMessageToChat ''Please complete an analysis first before using the chatbot.''
                Assistant st)
           else
             (let st1 = st\<lparr>chatInput := Some (inp\<lparr>el_value := [], el_disabled := True\<rparr>)\<rparr>
              in (case sendChatBtn st1 of
                    None \<Rightarrow> (TypeError, st1)
                  | Some d \<Rightarrow>
                      (let st2 = addMessageToChat question User (st1\<lparr>sendChatBtn := Some True\<rparr>);
                           (indicator, st3) = addTypingIndicator st2;
                           st4 = st3\<lparr>requests := requests st3 @
                                   [ChatPost
                                      (API_BASE_URL @ ''/results/''
                                         @ interpolate (chatbotJobId st) @ ''/chat'')
                                      question True]\<rparr>;
                           (escaped, st5) = chatTry r indicator st4;
                           st6 = st5\<lparr>chatInput :=
                                      Some (inp\<lparr>el_value := [], el_disabled := False\<rparr>),
                                    sendChatBtn := Some False, inputFocused := True\<rparr>
                       in (if escaped then TypeError else Finished, st6))))))"

subsection \<open>loadSuggestedQuestions, setupChatbotListeners, initializeChatbot\<close>

datatype suggestions_response =
    SuggestionsFetchFailed
  | SuggestionsNotOk
  | SuggestionsBadJson
  | SuggestionsData "string list option"

definition loadSuggestedQuestions ::
    "string \<Rightarrow> suggestions_response \<Rightarrow> chat_page \<Rightarrow> chat_page" where
  "loadSuggestedQuestions jobId r st =
     (let st1 = st\<lparr>requests := requests st @
                  [SuggestionsGet (API_BASE_URL @ ''/results/'' @ jobId @ ''/chat/suggestions'')]\<rparr>
      in case r of
           SuggestionsData (Some suggestions) \<Rightarrow>
             if length suggestions > 0 then displaySuggestedQuestions suggestions st1 else st1
         | _ \<Rightarrow> st1)"

text \<open>The five registrations \<open>setupChatbotListeners\<close> makes, in its order.\<close>

definition chatbotListeners :: "(target \<times> string \<times> handler) list" where
  "chatbotListeners =
     [(ToggleChatBtn, ''click'', ToggleWidget),
      (CloseChatBtn, ''click'', CloseWidget),
      (SendChatBtn, ''click'', SendOnClick),
      (ChatInput, ''keypress'', SendOnEnter),
      (Document, ''click'', SendOnSuggestion)]"

definition setupChatbotListeners :: "chat_page \<Rightarrow> chat_page" where
  "setupChatbotListeners st =
     (if toggleChatBtn st = None \<or> \<not> closeChatBtn st \<or> sendChatBtn st = None
         \<or> chatInput st = None
      then st
      else st\<lparr>listeners := listeners st @ chatbotListeners\<rparr>)"

definition initializeChatbot ::
    "string option \<Rightarrow> suggestions_response \<Rightarrow> chat_page \<Rightarrow> chat_page" where
  "initializeChatbot jobId r st =
     (let st1 = st\<lparr>chatbotJobId := jobId\<rparr>;
          st2 = (case toggleChatBtn st1 of
                   None \<Rightarrow> st1
                 | Some d \<Rightarrow> st1\<lparr>toggleChatBtn := Some ''flex''\<rparr>);
          st3 = (if truthy jobId then loadSuggestedQuestions (interpolate jobId) r st2 else st2)
      in if \<not> chatbotInitialized st3
         then (setupChatbotListeners st3)\<lparr>chatbotInitialized := True\<rparr>
         else st3)"

subsection \<open>The registered handlers\<close>

text \<open>
  A user event is a click on an element or a key press in the chat input. A click or key
  press runs the listeners of its type registered on the element, then those registered
  on the document. \<open>now\<close> is the clock reading the send handlers log.
\<close>

datatype element = Target target | Chip string | Elsewhere

datatype ui_event = Click element | Keypress string bool

fun eventType :: "ui_event \<Rightarrow> string" where
  "eventType (Click e) = ''click''"
| "eventType (Keypress k shiftKey) = ''keypress''"

fun eventTarget :: "ui_event \<Rightarrow> element" where
  "eventTarget (Click e) = e"
| "eventTarget (Keypress k shiftKey) = Target ChatInput"

definition handlersFor :: "(target \<times> string \<times> handler) list \<Rightarrow> ui_event \<Rightarrow> handler list" where
  "handlersFor ls ev =
     [h. (t, ty, h) \<leftarrow> ls, t \<noteq> Document \<and> Target t = eventTarget ev \<and> ty = eventType ev]
     @ [h. (t, ty, h) \<leftarrow> ls, t = Document \<and> ty = eventType ev]"

text \<open>Whether a handler, run on an event, reaches its call of \<open>sendMessage\<close>.\<close>

fun callsSendMessage :: "ui_event \<Rightarrow> handler \<Rightarrow> bool" where
  "callsSendMessage ev SendOnClick = True"
| "callsSendMessage (Keypress k shiftKey) SendOnEnter = (k = ''Enter'' \<and> \<not> shiftKey)"
| "callsSendMessage (Click (Chip q)) SendOnSuggestion = True"
| "callsSendMessage ev h = False"

definition countSend :: "string \<Rightarrow> chat_page \<Rightarrow> chat_page" where
  "countSend now st =
     st\<lparr>sendButtonClickCount := Suc (sendButtonClickCount st),
        sendButtonClickTimes := sendButtonClickTimes st @ [now]\<rparr>"

fun runHandler :: "string \<Rightarrow> chat_response \<Rightarrow> ui_event \<Rightarrow> handler \<Rightarrow> chat_page \<Rightarrow> chat_page" where
  "runHandler now r ev ToggleWidget st =
     (case chatbotWidget st of
        None \<Rightarrow> st
      | Some d \<Rightarrow>
          st\<lparr>chatbotWidget := Some (if d = ''flex'' then ''none'' else ''flex''),
             inputFocused := (d \<noteq> ''flex'' \<or> inputFocused st)\<rparr>)"
| "runHandler now r ev CloseWidget st =
     (case chatbotWidget st of
        None \<Rightarrow> st
      | Some d \<Rightarrow> st\<lparr>chatbotWidget := Some ''none''\<rparr>)"
| "runHandler now r ev SendOnClick st = snd (sendMessage r (countSend now st))"
| "runHandler now r ev SendOnEnter st =
     (if callsSendMessage ev SendOnEnter then snd (sendMessage r (countSend now st)) else st)"
| "runHandler now r ev SendOnSuggestion st =
     (case ev of
        Click (Chip question) \<Rightarrow>
          snd (sendMessage r
                 (st\<lparr>chatInput := map_option (\<lambda>i. i\<lparr>el_value := question\<rparr>) (chatInput st)\<rparr>))
      | _ \<Rightarrow> st)"

definition dispatch :: "string \<Rightarrow> chat_response \<Rightarrow> ui_event \<Rightarrow> chat_page \<Rightarrow> chat_page" where
  "dispatch now r ev st = fold (runHandler now r ev) (handlersFor (listeners st) ev) st"

text \<open>How many listeners are registered on an element for an event type.\<close>

definition registrations :: "(target \<times> string \<times> handler) list \<Rightarrow> target \<Rightarrow> string \<Rightarrow> nat" where
  "registrations ls t ty = length (filter (\<lambda>(t', ty', h). t' = t \<and> ty' = ty) ls)"

text \<open>The number of \<open>sendMessage\<close> calls one event triggers.\<close>

definition sendMessageCalls :: "(target \<times> string \<times> handler) list \<Rightarrow> ui_event \<Rightarrow> nat" where
  "sendMessageCalls ls ev = length (filter (callsSendMessage ev) (handlersFor ls ev))"

subsection \<open>Runs of the widget\<close>

text \<open>
  What happens to the widget over time: a call of \<open>initializeChatbot\<close> (on page load, and
  from \<open>showResults\<close> whenever an analysis completes), with the reply its request for
  suggestions gets, or a user event, with the clock reading and the reply a chat request
  would get.
\<close>

datatype page_action =
    Initialize "string option" suggestions_response
  | UserEvent string chat_response ui_event

fun act :: "page_action \<Rightarrow> chat_page \<Rightarrow> chat_page" where
  "act (Initialize jobId r) st = initializeChatbot jobId r st"
| "act (UserEvent now r ev) st = dispatch now r ev st"

definition runPage :: "page_action list \<Rightarrow> chat_page \<Rightarrow> chat_page" where
  "runPage actions st = fold act actions st"

text \<open>
  How many times a run executes \<open>setupChatbotListeners\<close>: once for every call of
  \<open>initializeChatbot\<close> that finds \<open>chatbotInitialized\<close> false.
\<close>

fun setupRuns :: "page_action list \<Rightarrow> chat_page \<Rightarrow> nat" where
  "setupRuns [] st = 0"
| "setupRuns (a # actions) st =
     (case a of
        Initialize jobId r \<Rightarrow> (if \<not> chatbotInitialized st then 1 else 0)
      | UserEvent now r ev \<Rightarrow> 0)
       + setupRuns actions (act a st)"

text \<open>
  The listeners of a widget are in order when none is registered, or the script has been
  initialized and the registered ones are exactly the five of \<open>setupChatbotListeners\<close>.
\<close>

definition wired :: "chat_page \<Rightarrow> bool" where
  "wired st = (listeners st = [] \<or> chatbotInitialized st \<and> listeners st = chatbotListeners)"

section \<open>SentimentAPI/Services/PythonServiceClient.cs\<close>

subsection \<open>Models and the HTTP client\<close>

datatype json =
    JNull
  | JBool bool
  | JNumber int
  | JString string
  | JArray "json list"
  | JObject "(string \<times> json) list"

record AnalysisRequest =
  Url :: "string option"
  HtmlContent :: "string option"
  Email :: "string option"
  Emails :: "string list option"
  CustomPrompt :: "string option"
  SearchMethod :: "string option"

record JobStatus =
  JobId :: string
  Status :: string
  Progress :: int
  Message :: "string option"
  PdfUrl :: "string option"
  ResultsUrl :: "string option"
  Error :: "string option"
  CreatedAt :: "string option"

record AnalysisResults =
  Trends :: "(string \<times> json) list option"
  PositiveSummary :: "(string \<times> json) list option"
  NegativeSummary :: "(string \<times> json) list option"
  NeutralSummary :: "(string \<times> json) list option"
  Recommendations :: "(string \<times> json) list option"
  Statistics :: "(string \<times> json) list option"

text \<open>
  The exceptions that occur: those of \<open>HttpClient\<close> (a failed request, a timeout), of
  \<open>System.Text.Json\<close>, of \<open>JsonElement.GetString\<close>, and the one the client throws itself.
\<close>

datatype exn =
    HttpRequestException
  | TaskCanceledException
  | JsonException
  | InvalidOperationException
  | Exception string

datatype payload = NoBody | AnalyzeBody AnalysisRequest | ChatBody string bool

datatype http_request = Request string string payload

text \<open>
  A request either fails with an exception or is answered with a status code and a
  content: the JSON value the body holds, \<open>None\<close> when the body is not JSON.
\<close>

datatype http_result = Fails exn | Reply nat "json option"

text \<open>
  The injected \<open>HttpClient\<close> with the service behind it: \<open>respond\<close> is what the service
  answers, \<open>sent\<close> the requests the client has issued, in order.
\<close>

record http_client =
  respond :: "http_request \<Rightarrow> http_result"
  sent :: "http_request list"

definition send :: "http_request \<Rightarrow> http_client \<Rightarrow> http_result \<times> http_client" where
  "send req hc = (respond hc req, hc\<lparr>sent := sent hc @ [req]\<rparr>)"

definition IsSuccessStatusCode :: "nat \<Rightarrow> bool" where
  "IsSuccessStatusCode code = (200 \<le> code \<and> code \<le> 299)"

text \<open>
  \<open>ReadFromJsonAsync<Dictionary<string, JsonElement>>\<close>: \<open>null\<close> for the JSON literal
  \<open>null\<close>, the members of an object (a later member replaces an earlier one of the same
  name), \<open>JsonException\<close> otherwise.
\<close>

fun ReadDictionary :: "json option \<Rightarrow> exn + (string \<rightharpoonup> json) option" where
  "ReadDictionary (Some JNull) = Inr None"
| "ReadDictionary (Some (JObject members)) = Inr (Some (map_of (rev members)))"
| "ReadDictionary content = Inl JsonException"

text \<open>\<open>JsonElement.GetString\<close>\<close>

fun GetString :: "json \<Rightarrow> exn + string option" where
  "GetString (JString s) = Inr (Some s)"
| "GetString JNull = Inr None"
| "GetString v = Inl InvalidOperationException"

text \<open>\<open>JsonSerializer.Deserialize<List<string>>\<close> of an element's raw text.\<close>

fun DeserializeStrings :: "json list \<Rightarrow> exn + string option list" where
  "DeserializeStrings [] = Inr []"
| "DeserializeStrings (v # vs) =
     (case GetString v of
        Inl e \<Rightarrow> Inl JsonException
      | Inr s \<Rightarrow>
          (case DeserializeStrings vs of
             Inl e \<Rightarrow> Inl e
           | Inr ss \<Rightarrow> Inr (s # ss)))"

fun DeserializeStringList :: "json \<Rightarrow> exn + string option list option" where
  "DeserializeStringList JNull = Inr None"
| "DeserializeStringList (JArray vs) =
     (case DeserializeStrings vs of Inl e \<Rightarrow> Inl e | Inr ss \<Rightarrow> Inr (Some ss))"
| "DeserializeStringList v = Inl JsonException"

subsection \<open>The client's operations\<close>

text \<open>
  Each operation returns what its task completes with, \<open>Inl\<close> for an exception that
  reaches the caller, and the client after the call. \<open>catch { ...; throw; }\<close> passes the
  exception on; \<open>catch { ...; return d; }\<close> is \<open>catch_return\<close>. The typed
  \<open>ReadFromJsonAsync<T>\<close> of \<open>System.Text.Json\<close> is a parameter: it throws, or returns
  \<open>null\<close> or a value.
\<close>

definition catch_return :: "exn + 'a \<Rightarrow> 'a \<Rightarrow> exn + 'a" where
  "catch_return attempt d = (case attempt of Inl ex \<Rightarrow> Inr d | Inr v \<Rightarrow> Inr v)"

text \<open>\<open>response.EnsureSuccessStatusCode()\<close> on what \<open>HttpClient\<close> returned or threw.\<close>

fun EnsureSuccessStatusCode :: "http_result \<Rightarrow> exn + json option" where
  "EnsureSuccessStatusCode (Fails ex) = Inl ex"
| "EnsureSuccessStatusCode (Reply code content) =
     (if IsSuccessStatusCode code then Inr content else Inl HttpRequestException)"

definition StartAnalysisAsync ::
    "(json option \<Rightarrow> exn + JobStatus option) \<Rightarrow> AnalysisRequest \<Rightarrow> http_client
      \<Rightarrow> (exn + JobStatus) \<times> http_client" where
  "StartAnalysisAsync ReadJobStatus request hc =
     (let (response, hc') = send (Request ''POST'' ''/api/analyze'' (AnalyzeBody request)) hc
      in (case EnsureSuccessStatusCode response of
            Inl ex \<Rightarrow> Inl ex
          | Inr content \<Rightarrow>
              (case ReadJobStatus content of
                 Inl ex \<Rightarrow> Inl ex
               | Inr None \<Rightarrow> Inl (Exception ''Failed to deserialize response from Python service'')
               | Inr (Some result) \<Rightarrow> Inr result),
          hc'))"

definition GetJobStatusAsync ::
    "(json option \<Rightarrow> exn + JobStatus option) \<Rightarrow> string \<Rightarrow> http_client
      \<Rightarrow> (exn + JobStatus option) \<times> http_client" where
  "GetJobStatusAsync ReadJobStatus jobId hc =
     (let (response, hc') = send (Request ''GET'' (''/api/status/'' @ jobId) NoBody) hc
      in (catch_return
            (case response of
               Fails ex \<Rightarrow> Inl ex
             | Reply code content \<Rightarrow>
                 if \<not> IsSuccessStatusCode code then Inr None else ReadJobStatus content)
            None,
          hc'))"

definition GetAnalysisDataAsync ::
    "(json option \<Rightarrow> exn + AnalysisResults option) \<Rightarrow> string \<Rightarrow> http_client
      \<Rightarrow> (exn + AnalysisResults option) \<times> http_client" where
  "GetAnalysisDataAsync ReadAnalysisResults jobId hc =
     (let (response, hc') =
            send (Request ''GET'' (''/api/results/'' @ jobId @ ''/data'') NoBody) hc
      in (catch_return
            (case response of
               Fails ex \<Rightarrow> Inl ex
             | Reply code content \<Rightarrow>
                 if \<not> IsSuccessStatusCode code then Inr None else ReadAnalysisResults content)
            None,
          hc'))"


definition GetChatSuggestionsAsync ::
    "string \<Rightarrow> http_client \<Rightarrow> (exn + string option list) \<times> http_client" where
  "GetChatSuggestionsAsync jobId hc =
     (let (response, hc') =
            send (Request ''GET'' (''/api/results/'' @ jobId @ ''/chat/suggestions'') NoBody) hc
      in (catch_return
            (case EnsureSuccessStatusCode response of
               Inl ex \<Rightarrow> Inl ex
             | Inr content \<Rightarrow>
                 (case ReadDictionary content of
                    Inl ex \<Rightarrow> Inl ex
                  | Inr None \<Rightarrow> Inr []
                  | Inr (Some result) \<Rightarrow>
                      (case result ''suggestions'' of
                         None \<Rightarrow> Inr []
                       | Some suggestionsElement \<Rightarrow>
                           (case DeserializeStringList suggestionsElement of
                              Inl ex \<Rightarrow> Inl ex
                            | Inr None \<Rightarrow> Inr []
                            | Inr (Some suggestions) \<Rightarrow> Inr suggestions))))
            [],
          hc'))"

definition ClearChatHistoryAsync ::
    "string \<Rightarrow> http_client \<Rightarrow> (exn + bool) \<times> http_client" where
  "ClearChatHistoryAsync jobId hc =
     (let (response, hc') =
            send (Request ''DELETE'' (''/api/results/'' @ jobId @ ''/chat/history'') NoBody) hc
      in (catch_return
            (case response of
               Fails ex \<Rightarrow> Inl ex
             | Reply code content \<Rightarrow> Inr (IsSuccessStatusCode code))
            False,
          hc'))"

text \<open>An upstream failure: the request throws, or the reply's status is not a success.\<close>

fun upstreamFailure :: "http_result \<Rightarrow> bool" where
  "upstreamFailure (Fails ex) = True"
| "upstreamFailure (Reply code content) = (\<not> IsSuccessStatusCode code)"

section \<open>The Gateway's analyze endpoint\<close>

text \<open>
  The controller behind \<open>POST /analyze\<close> is the repository's \<open>SentimentController\<close>
  (\<open>Program.cs\<close> maps it, the logging middleware names it); it is not among the source
  files, only the client it calls is. The endpoint is therefore taken from the spec, in
  front of the source's \<open>StartAnalysisAsync\<close>.
\<close>

datatype gateway_reply = BadRequest400 | Forwarded "exn + JobStatus"

text \<open>
  Modelled from the spec: the controller action for \<open>POST /analyze\<close>, missing from the
  source files. The spec's words: the request ``fails 400 on missing usable source'', and
  ``validation errors are rejected at the boundary and never reach the Job Manager''.
  What makes a source specifier usable is the controller's rule and is a parameter here.
  An accepted request is handed to \<open>StartAnalysisAsync\<close>.
\<close>

definition PostAnalyze ::
    "(AnalysisRequest \<Rightarrow> bool) \<Rightarrow> (json option \<Rightarrow> exn + JobStatus option)
      \<Rightarrow> AnalysisRequest \<Rightarrow> http_client \<Rightarrow> gateway_reply \<times> http_client" where
  "PostAnalyze usableSource ReadJobStatus request hc =
     (if \<not> usableSource request then (BadRequest400, hc)
      else (let (result, hc') = StartAnalysisAsync ReadJobStatus request hc
            in (Forwarded result, hc')))"

text \<open>A run of the endpoint over the requests that arrive, in order.\<close>

fun PostAnalyzeAll ::
    "(AnalysisRequest \<Rightarrow> bool) \<Rightarrow> (json option \<Rightarrow> exn + JobStatus option)
      \<Rightarrow> AnalysisRequest list \<Rightarrow> http_client \<Rightarrow> gateway_reply list \<times> http_client" where
  "PostAnalyzeAll usableSource ReadJobStatus [] hc = ([], hc)"
| "PostAnalyzeAll usableSource ReadJobStatus (request # rest) hc =
     (let (reply, hc1) = PostAnalyze usableSource ReadJobStatus request hc;
          (replies, hc2) = PostAnalyzeAll usableSource ReadJobStatus rest hc1
      in (reply # replies, hc2))"

text \<open>The analysis requests among what the client has sent.\<close>

fun analysisRequests :: "http_request list \<Rightarrow> AnalysisRequest list" where
  "analysisRequests [] = []"
| "analysisRequests (Request m path (AnalyzeBody request) # rs) = request # analysisRequests rs"
| "analysisRequests (r # rs) = analysisRequests rs"

section \<open>The Job Manager\<close>

text \<open>
  The Job Manager is part of the Python analysis service the Gateway calls
  (\<open>PythonServiceUrl\<close>); none of that service is among the source files. Its job record
  and its two operations on progress are therefore taken from the spec (sections 3 and
  4.1).
\<close>

datatype job_state = Pending | Running | Completed | Failed

text \<open>
  Modelled from the spec: the Job record of the missing Job Manager, with the spec's
  fields \<open>status\<close>, \<open>progress\<close>, \<open>message\<close>, \<open>resultRef\<close> and \<open>error\<close>.
\<close>

record Job =
  job_id :: string
  job_status :: job_state
  job_progress :: int
  job_message :: "string option"
  job_resultRef :: "string option"
  job_error :: "string option"

datatype job_error = NotFound

text \<open>Modelled from the spec: the terminal states of the missing Job Manager, ``Completed or Failed''.\<close>

definition terminal :: "Job \<Rightarrow> bool" where
  "terminal j = (job_status j = Completed \<or> job_status j = Failed)"

text \<open>
  Modelled from the spec: \<open>UpdateProgress(jobId, progress, message)\<close> of the missing Job
  Manager. The spec's words: it ``rejects (logs, does not crash) out-of-order decreases
  in progress; sets status=Running on first call if still Pending'', and ``re-entrant
  progress callbacks for a terminal job are no-ops''. An unknown id changes nothing.
\<close>

definition UpdateProgress ::
    "string \<Rightarrow> int \<Rightarrow> string option \<Rightarrow> (string \<rightharpoonup> Job) \<Rightarrow> (string \<rightharpoonup> Job)" where
  "UpdateProgress jobId progress message jobs =
     (case jobs jobId of
        None \<Rightarrow> jobs
      | Some j \<Rightarrow>
          if terminal j then jobs
          else if progress < job_progress j then jobs
          else jobs(jobId \<mapsto>
                 j\<lparr>job_progress := progress, job_message := message,
                   job_status := (if job_status j = Pending then Running else job_status j)\<rparr>))"

text \<open>
  Modelled from the spec: \<open>GetStatus(jobId)\<close> of the missing Job Manager, a ``read-only
  lookup; fails with NotFound if the ID is unknown''.
\<close>

definition GetStatus :: "string \<Rightarrow> (string \<rightharpoonup> Job) \<Rightarrow> job_error + Job" where
  "GetStatus jobId jobs = (case jobs jobId of None \<Rightarrow> Inl NotFound | Some j \<Rightarrow> Inr j)"

text \<open>
  The calls that reach the Job Manager, in the order it serves them (each under the
  job's exclusive access): progress updates from Stage Runners and status polls.
\<close>

datatype jm_call = Update string int "string option" | Poll string

text \<open>The progress values a poller of \<open>jobId\<close> sees over a run of calls, in order.\<close>

fun observedProgress :: "string \<Rightarrow> jm_call list \<Rightarrow> (string \<rightharpoonup> Job) \<Rightarrow> int list" where
  "observedProgress jobId [] jobs = []"
| "observedProgress jobId (Update i p m # calls) jobs =
     observedProgress jobId calls (UpdateProgress i p m jobs)"
| "observedProgress jobId (Poll i # calls) jobs =
     (case GetStatus i jobs of
        Inr j \<Rightarrow>
          (if i = jobId then job_progress j # observedProgress jobId calls jobs
           else observedProgress jobId calls jobs)
      | Inl e \<Rightarrow> observedProgress jobId calls jobs)"

section \<open>The spec's stage table and the terminal statuses\<close>

text \<open>
  The threshold table of the spec (Init 0--10, Fetch 10--20, Extract 20--30, Classify
  30--40, Summarize 40--60, Recommend 60--75, Render 75--90, Complete 90--100), each stage
  with the id of its step element: lower bound, upper bound.
\<close>

definition spec_stage_table :: "(string \<times> int \<times> int) list" where
  "spec_stage_table =
     [(''step-init'', 0, 10),
      (''step-download'', 10, 20),
      (''step-extract'', 20, 30),
      (''step-analyze'', 30, 40),
      (''step-summarize'', 40, 60),
      (''step-recommend'', 60, 75),
      (''step-pdf'', 75, 90),
      (''step-complete'', 90, 100)]"



section \<open>Sample states\<close>



text \<open>
  The chat widget when the script has just been loaded (\<open>chatbotInitialized = false\<close>, no
  listener registered yet), on a page that has all of the widget's elements.
\<close>

definition loaded_chat_page :: chat_page where
  "loaded_chat_page =
     \<lparr>chatbotJobId = None, chatbotInitialized = False,
      sendButtonClickCount = 0, sendButtonClickTimes = [],
      toggleChatBtn = Some ''none'', closeChatBtn = True, sendChatBtn = Some False,
      chatInput = Some \<lparr>el_value = [], el_disabled = False\<rparr>, inputFocused = False,
      chatbotWidget = Some ''none'', chatMessages = Some [], suggestedQuestions = Some [],
      listeners = [], requests = []\<rparr>"

text \<open>The same page with a job id and a question of two spaces typed in.\<close>

definition blank_question_page :: chat_page where
  "blank_question_page =
     loaded_chat_page\<lparr>chatbotJobId := Some ''job-1'',
       chatInput := Some \<lparr>el_value = ''  '', el_disabled = False\<rparr>\<rparr>"

text \<open>An analysis service that answers every request alike, behind a client that has sent nothing.\<close>

definition service :: "http_result \<Rightarrow> http_client" where
  "service answer = \<lparr>respond = (\<lambda>req. answer), sent = []\<rparr>"


text \<open>A sample rule for a usable source (a non-empty URL) and requests to try it on.\<close>

definition url_given :: "AnalysisRequest \<Rightarrow> bool" where
  "url_given request = truthy (Url request)"

definition request_for :: "string option \<Rightarrow> AnalysisRequest" where
  "request_for u =
     \<lparr>Url = u, HtmlContent = None, Email = None, Emails = None,
      CustomPrompt = None, SearchMethod = Some ''urls''\<rparr>"

text \<open>A job table with one running job at progress 40.\<close>

definition one_job :: "string \<rightharpoonup> Job" where
  "one_job =
     [''job-1'' \<mapsto>
        \<lparr>job_id = ''job-1'', job_status = Running, job_progress = 40,
         job_message = None, job_resultRef = None, job_error = None\<rparr>]"

section \<open>Properties\<close>

subsection \<open>validateEmail\<close>





text \<open>
  The matcher decides membership in the expression's set of strings, so \<open>emailRegex_test\<close>
  holds exactly of the strings \<open>local@domain.tld\<close> with three non-empty parts free of
  white space and of \<open>@\<close>.
\<close>

lemma concI: "u \<in> A \<Longrightarrow> v \<in> B \<Longrightarrow> u @ v \<in> conc A B"
  by (auto simp: conc_def)

lemma concD: "w \<in> conc A B \<Longrightarrow> \<exists>u v. w = u @ v \<and> u \<in> A \<and> v \<in> B"
  by (auto simp: conc_def)

lemma nullable_lang: "nullable r \<longleftrightarrow> [] \<in> lang r"
  by (induction r) (auto simp: conc_def intro: iter_Nil)

lemma iter_Cons_split:
  assumes "w \<in> iter L" and "w = c # x"
  shows "\<exists>u v. x = u @ v \<and> c # u \<in> L \<and> v \<in> iter L"
  using assms
proof (induction arbitrary: x rule: iter.induct)
  case iter_Nil
  then show ?case by simp
next
  case (iter_app u v)
  show ?case
  proof (cases u)
    case Nil
    with iter_app show ?thesis by simp
  next
    case (Cons a u')
    with iter_app.prems have "a = c" and "x = u' @ v" by simp_all
    with Cons iter_app.hyps show ?thesis by blast
  qed
qed

lemma lang_deriv: "w \<in> lang (deriv c r) \<longleftrightarrow> c # w \<in> lang r"
proof (induction r arbitrary: w)
  case RNever
  show ?case by simp
next
  case REps
  show ?case by simp
next
  case (RClass p)
  show ?case by simp
next
  case (RAlt r s)
  then show ?case by simp
next
  case (RSeq r s)
  have d: "lang (deriv c (RSeq r s)) =
             (if nullable r then conc (lang (deriv c r)) (lang s) \<union> lang (deriv c s)
              else conc (lang (deriv c r)) (lang s))"
    by simp
  show ?case
  proof
    assume "w \<in> lang (deriv c (RSeq r s))"
    with d have "w \<in> conc (lang (deriv c r)) (lang s) \<or> nullable r \<and> w \<in> lang (deriv c s)"
      by (cases "nullable r") simp_all
    then show "c # w \<in> lang (RSeq r s)"
    proof
      assume "w \<in> conc (lang (deriv c r)) (lang s)"
      from concD [OF this] obtain u v where uv: "w = u @ v" "u \<in> lang (deriv c r)" "v \<in> lang s"
        by blast
      then have "c # u \<in> lang r" by (simp add: RSeq.IH)
      with uv have "(c # u) @ v \<in> conc (lang r) (lang s)" by (intro concI)
      with uv show ?thesis by simp
    next
      assume "nullable r \<and> w \<in> lang (deriv c s)"
      then have "[] \<in> lang r" "c # w \<in> lang s" by (simp_all add: nullable_lang RSeq.IH)
      then have "[] @ (c # w) \<in> conc (lang r) (lang s)" by (rule concI)
      then show ?thesis by simp
    qed
  next
    assume "c # w \<in> lang (RSeq r s)"
    then have "c # w \<in> conc (lang r) (lang s)" by simp
    from concD [OF this] obtain u v where uv: "c # w = u @ v" "u \<in> lang r" "v \<in> lang s"
      by blast
    show "w \<in> lang (deriv c (RSeq r s))"
    proof (cases u)
      case Nil
      with uv have "nullable r" "w \<in> lang (deriv c s)"
        by (simp_all add: nullable_lang RSeq.IH)
      with d show ?thesis by simp
    next
      case (Cons a u')
      with uv have eq: "a = c" "w = u' @ v" by simp_all
      with uv Cons have "c # u' \<in> lang r" by simp
      then have "u' \<in> lang (deriv c r)" by (simp only: RSeq.IH)
      with uv eq have "w \<in> conc (lang (deriv c r)) (lang s)" by (simp add: concI)
      with d show ?thesis by simp
    qed
  qed
next
  case (RStar r)
  have d: "lang (deriv c (RStar r)) = conc (lang (deriv c r)) (iter (lang r))"
    by simp
  show ?case
  proof
    assume "w \<in> lang (deriv c (RStar r))"
    with d have "w \<in> conc (lang (deriv c r)) (iter (lang r))" by simp
    from concD [OF this] obtain u v
      where uv: "w = u @ v" "u \<in> lang (deriv c r)" "v \<in> iter (lang r)"
      by blast
    then have "c # u \<in> lang r" by (simp add: RStar.IH)
    with uv have "(c # u) @ v \<in> iter (lang r)" by (intro iter_app)
    with uv show "c # w \<in> lang (RStar r)" by simp
  next
    assume "c # w \<in> lang (RStar r)"
    then have "c # w \<in> iter (lang r)" by simp
    from iter_Cons_split [OF this refl]
    obtain u v where uv: "w = u @ v" "c # u \<in> lang r" "v \<in> iter (lang r)" by blast
    then have "u \<in> lang (deriv c r)" by (simp add: RStar.IH)
    with uv have "w \<in> conc (lang (deriv c r)) (iter (lang r))" by (simp add: concI)
    with d show "w \<in> lang (deriv c (RStar r))" by simp
  qed
qed

lemma matches_lang: "matches r s \<longleftrightarrow> s \<in> lang r"
  by (induction s arbitrary: r) (simp_all add: nullable_lang lang_deriv)

lemma iter_class: "w \<in> iter {[c] | c. p c} \<longleftrightarrow> list_all p w"
proof
  assume "w \<in> iter {[c] | c. p c}"
  then show "list_all p w" by (induction rule: iter.induct) auto
next
  assume "list_all p w"
  then show "w \<in> iter {[c] | c. p c}"
  proof (induction w)
    case Nil
    show ?case by (rule iter_Nil)
  next
    case (Cons a w)
    then have "[a] \<in> {[c] | c. p c}" "w \<in> iter {[c] | c. p c}" by simp_all
    then have "[a] @ w \<in> iter {[c] | c. p c}" by (rule iter_app)
    then show ?case by simp
  qed
qed

lemma lang_OneOrMore_class:
  "w \<in> lang (OneOrMore (RClass p)) \<longleftrightarrow> w \<noteq> [] \<and> list_all p w"
proof -
  let ?S = "{[c] | c. p c}"
  have l: "lang (OneOrMore (RClass p)) = conc ?S (iter ?S)"
    by (simp add: OneOrMore_def)
  show ?thesis
  proof
    assume "w \<in> lang (OneOrMore (RClass p))"
    with l have "w \<in> conc ?S (iter ?S)" by simp
    from concD [OF this] obtain u v where uv: "w = u @ v" "u \<in> ?S" "v \<in> iter ?S"
      by blast
    from uv(2) obtain c where c: "u = [c]" "p c" by blast
    from uv(3) have "list_all p v" by (simp add: iter_class)
    with uv(1) c show "w \<noteq> [] \<and> list_all p w" by simp
  next
    assume a: "w \<noteq> [] \<and> list_all p w"
    then obtain c x where w: "w = c # x" by (cases w) auto
    with a have "[c] \<in> ?S" "x \<in> iter ?S" by (simp_all add: iter_class)
    then have "[c] @ x \<in> conc ?S (iter ?S)" by (rule concI)
    with w l show "w \<in> lang (OneOrMore (RClass p))" by simp
  qed
qed

lemma lang_char: "lang (RClass (\<lambda>c. c = a)) = {[a]}"
  by auto

lemma conc_single: "w \<in> conc {[a]} B \<longleftrightarrow> (\<exists>v. w = a # v \<and> v \<in> B)"
proof
  assume "w \<in> conc {[a]} B"
  from concD [OF this] show "\<exists>v. w = a # v \<and> v \<in> B" by auto
next
  assume "\<exists>v. w = a # v \<and> v \<in> B"
  then obtain v where v: "w = a # v" "v \<in> B" by blast
  then have "[a] @ v \<in> conc {[a]} B" by (intro concI) simp_all
  with v show "w \<in> conc {[a]} B" by simp
qed

lemma conc_iff: "w \<in> conc A B \<longleftrightarrow> (\<exists>u v. w = u @ v \<and> u \<in> A \<and> v \<in> B)"
  using concD concI by blast


lemma emailRegex_test_iff:
  "emailRegex_test s \<longleftrightarrow>
     (\<exists>l d t. s = l @ ''@'' @ d @ ''.'' @ t
        \<and> (l \<noteq> [] \<and> list_all notSpaceOrAt l)
        \<and> (d \<noteq> [] \<and> list_all notSpaceOrAt d)
        \<and> (t \<noteq> [] \<and> list_all notSpaceOrAt t))"
proof -
  let ?P = "lang (OneOrMore (RClass notSpaceOrAt))"
  let ?B = "\<exists>l d t. s = l @ ''@'' @ d @ ''.'' @ t \<and> l \<in> ?P \<and> d \<in> ?P \<and> t \<in> ?P"
  have "emailRegex_test s \<longleftrightarrow>
          s \<in> conc ?P (conc {[CHR ''@'']} (conc ?P (conc {[CHR ''.'']} ?P)))"
    by (simp only: emailRegex_test_def matches_lang emailRegex_def lang.simps(4) lang_char)
  also have "\<dots> \<longleftrightarrow> ?B"
  proof
    assume "s \<in> conc ?P (conc {[CHR ''@'']} (conc ?P (conc {[CHR ''.'']} ?P)))"
    from concD [OF this] obtain l r1
      where 1: "s = l @ r1" "l \<in> ?P" "r1 \<in> conc {[CHR ''@'']} (conc ?P (conc {[CHR ''.'']} ?P))"
      by blast
    from 1(3) obtain r2 where 2: "r1 = CHR ''@'' # r2" "r2 \<in> conc ?P (conc {[CHR ''.'']} ?P)"
      unfolding conc_single by blast
    from concD [OF 2(2)] obtain d r3
      where 3: "r2 = d @ r3" "d \<in> ?P" "r3 \<in> conc {[CHR ''.'']} ?P"
      by blast
    from 3(3) obtain t where 4: "r3 = CHR ''.'' # t" "t \<in> ?P"
      unfolding conc_single by blast
    from 1 2 3 4 have "s = l @ ''@'' @ d @ ''.'' @ t \<and> l \<in> ?P \<and> d \<in> ?P \<and> t \<in> ?P"
      by simp
    then show ?B by (intro exI)
  next
    assume ?B
    then obtain l d t where b: "s = l @ ''@'' @ d @ ''.'' @ t" "l \<in> ?P" "d \<in> ?P" "t \<in> ?P"
      by blast
    from b(4) have "CHR ''.'' # t \<in> conc {[CHR ''.'']} ?P"
      by (simp only: conc_single) blast
    with b(3) have "d @ (CHR ''.'' # t) \<in> conc ?P (conc {[CHR ''.'']} ?P)"
      by (intro concI)
    then have "CHR ''@'' # (d @ (CHR ''.'' # t)) \<in> conc {[CHR ''@'']} (conc ?P (conc {[CHR ''.'']} ?P))"
      by (simp only: conc_single) blast
    with b(2) have "l @ (CHR ''@'' # (d @ (CHR ''.'' # t)))
        \<in> conc ?P (conc {[CHR ''@'']} (conc ?P (conc {[CHR ''.'']} ?P)))"
      by (intro concI)
    with b(1) show "s \<in> conc ?P (conc {[CHR ''@'']} (conc ?P (conc {[CHR ''.'']} ?P)))"
      by simp
  qed
  finally show ?thesis by (simp only: lang_OneOrMore_class)
qed



subsection \<open>updateProgress\<close>




lemma stepClasses_updateStep:
  "stepClasses (updateStep p step st) i =
     (if i = fst step then
        (if p \<ge> snd step then insert ''completed'' (stepClasses st i) - {''active''}
         else if p \<ge> snd step - 10 then insert ''active'' (stepClasses st i) - {''completed''}
         else stepClasses st i - {''active'', ''completed''})
      else stepClasses st i)"
  by (simp add: updateStep_def Let_def)

lemma stepClasses_fold_other:
  "i \<notin> fst ` set xs \<Longrightarrow> stepClasses (fold (updateStep p) xs st) i = stepClasses st i"
  by (induction xs arbitrary: st) (simp_all add: stepClasses_updateStep)

lemma stepClasses_fold:
  "distinct (map fst xs) \<Longrightarrow> (i, t) \<in> set xs \<Longrightarrow>
   stepClasses (fold (updateStep p) xs st) i =
     (if p \<ge> t then insert ''completed'' (stepClasses st i) - {''active''}
      else if p \<ge> t - 10 then insert ''active'' (stepClasses st i) - {''completed''}
      else stepClasses st i - {''active'', ''completed''})"
proof (induction xs arbitrary: st)
  case Nil
  then show ?case by simp
next
  case (Cons x xs)
  show ?case
  proof (cases "x = (i, t)")
    case True
    with Cons.prems have "i \<notin> fst ` set xs" by simp
    then show ?thesis
      using True by (simp add: stepClasses_fold_other stepClasses_updateStep)
  next
    case False
    with Cons.prems have mem: "(i, t) \<in> set xs" and d: "distinct (map fst xs)" by auto
    from mem have "i \<in> fst ` set xs" by force
    moreover from Cons.prems have "fst x \<notin> fst ` set xs" by simp
    ultimately have "i \<noteq> fst x" by blast
    then have "stepClasses (updateStep p x st) i = stepClasses st i"
      by (simp add: stepClasses_updateStep)
    with Cons.IH [OF d mem, of "updateStep p x st"] show ?thesis by simp
  qed
qed

lemma distinct_steps: "distinct (map fst steps)"
  by (simp add: steps_def)

lemma stepClasses_updateProgress:
  "(i, t) \<in> set steps \<Longrightarrow>
   stepClasses (updateProgress p s st) i =
     (if p \<ge> t then insert ''completed'' (stepClasses st i) - {''active''}
      else if p \<ge> t - 10 then insert ''active'' (stepClasses st i) - {''completed''}
      else stepClasses st i - {''active'', ''completed''})"
  by (simp add: updateProgress_def stepClasses_fold [OF distinct_steps])

text \<open>
  What the code does for every progress value: a step is marked completed from its
  threshold on, and active in the ten points below its threshold.
\<close>

lemma updateProgress_completed_iff:
  "(i, t) \<in> set steps \<Longrightarrow>
   ''completed'' \<in> stepClasses (updateProgress p s st) i \<longleftrightarrow> p \<ge> t"
  by (simp add: stepClasses_updateProgress)

lemma updateProgress_active_iff:
  "(i, t) \<in> set steps \<Longrightarrow>
   ''active'' \<in> stepClasses (updateProgress p s st) i \<longleftrightarrow> t - 10 \<le> p \<and> p < t"
  by (auto simp add: stepClasses_updateProgress)

text \<open>The thresholds of the code are the upper bounds of the spec's table, stage by stage.\<close>

lemma steps_are_upper_bounds: "steps = map (\<lambda>(i, lo, hi). (i, hi)) spec_stage_table"
  by (simp add: steps_def spec_stage_table_def)

text \<open>
  Against the spec's table: the completed mark agrees with it for every stage and every
  progress value; the active mark agrees with it for every stage exactly when the
  progress is outside 40--49, 60--64 and 75--79.
\<close>

lemma active_by_step:
  "''active'' \<in> stepClasses (updateProgress p s st) ''step-init'' \<longleftrightarrow> 0 \<le> p \<and> p < 10"
  "''active'' \<in> stepClasses (updateProgress p s st) ''step-download'' \<longleftrightarrow> 10 \<le> p \<and> p < 20"
  "''active'' \<in> stepClasses (updateProgress p s st) ''step-extract'' \<longleftrightarrow> 20 \<le> p \<and> p < 30"
  "''active'' \<in> stepClasses (updateProgress p s st) ''step-analyze'' \<longleftrightarrow> 30 \<le> p \<and> p < 40"
  "''active'' \<in> stepClasses (updateProgress p s st) ''step-summarize'' \<longleftrightarrow> 50 \<le> p \<and> p < 60"
  "''active'' \<in> stepClasses (updateProgress p s st) ''step-recommend'' \<longleftrightarrow> 65 \<le> p \<and> p < 75"
  "''active'' \<in> stepClasses (updateProgress p s st) ''step-pdf'' \<longleftrightarrow> 80 \<le> p \<and> p < 90"
  "''active'' \<in> stepClasses (updateProgress p s st) ''step-complete'' \<longleftrightarrow> 90 \<le> p \<and> p < 100"
proof -
  have m: "(''step-init'', 10) \<in> set steps" "(''step-download'', 20) \<in> set steps"
    "(''step-extract'', 30) \<in> set steps" "(''step-analyze'', 40) \<in> set steps"
    "(''step-summarize'', 60) \<in> set steps" "(''step-recommend'', 75) \<in> set steps"
    "(''step-pdf'', 90) \<in> set steps" "(''step-complete'', 100) \<in> set steps"
    by (simp_all add: steps_def)
  show "''active'' \<in> stepClasses (updateProgress p s st) ''step-init'' \<longleftrightarrow> 0 \<le> p \<and> p < 10"
    using updateProgress_active_iff [OF m(1), of p s st] by simp
  show "''active'' \<in> stepClasses (updateProgress p s st) ''step-download'' \<longleftrightarrow> 10 \<le> p \<and> p < 20"
    using updateProgress_active_iff [OF m(2), of p s st] by simp
  show "''active'' \<in> stepClasses (updateProgress p s st) ''step-extract'' \<longleftrightarrow> 20 \<le> p \<and> p < 30"
    using updateProgress_active_iff [OF m(3), of p s st] by simp
  show "''active'' \<in> stepClasses (updateProgress p s st) ''step-analyze'' \<longleftrightarrow> 30 \<le> p \<and> p < 40"
    using updateProgress_active_iff [OF m(4), of p s st] by simp
  show "''active'' \<in> stepClasses (updateProgress p s st) ''step-summarize'' \<longleftrightarrow> 50 \<le> p \<and> p < 60"
    using updateProgress_active_iff [OF m(5), of p s st] by simp
  show "''active'' \<in> stepClasses (updateProgress p s st) ''step-recommend'' \<longleftrightarrow> 65 \<le> p \<and> p < 75"
    using updateProgress_active_iff [OF m(6), of p s st] by simp
  show "''active'' \<in> stepClasses (updateProgress p s st) ''step-pdf'' \<longleftrightarrow> 80 \<le> p \<and> p < 90"
    using updateProgress_active_iff [OF m(7), of p s st] by simp
  show "''active'' \<in> stepClasses (updateProgress p s st) ''step-complete'' \<longleftrightarrow> 90 \<le> p \<and> p < 100"
    using updateProgress_active_iff [OF m(8), of p s st] by simp
qed

lemma active_agrees_with_table_iff:
  "list_all (\<lambda>(i, lo, hi). (''active'' \<in> stepClasses (updateProgress p s st) i) = (lo \<le> p \<and> p < hi))
     spec_stage_table
   \<longleftrightarrow> \<not> (40 \<le> p \<and> p < 50 \<or> 60 \<le> p \<and> p < 65 \<or> 75 \<le> p \<and> p < 80)"
proof -
  have a: "((50 \<le> p \<and> p < 60) = (40 \<le> p \<and> p < 60)) \<longleftrightarrow> \<not> (40 \<le> p \<and> p < 50)"
    by arith
  have b: "((65 \<le> p \<and> p < 75) = (60 \<le> p \<and> p < 75)) \<longleftrightarrow> \<not> (60 \<le> p \<and> p < 65)"
    by arith
  have c: "((80 \<le> p \<and> p < 90) = (75 \<le> p \<and> p < 90)) \<longleftrightarrow> \<not> (75 \<le> p \<and> p < 80)"
    by arith
  have "list_all (\<lambda>(i, lo, hi). (''active'' \<in> stepClasses (updateProgress p s st) i) = (lo \<le> p \<and> p < hi))
     spec_stage_table
     \<longleftrightarrow> ((50 \<le> p \<and> p < 60) = (40 \<le> p \<and> p < 60))
       \<and> ((65 \<le> p \<and> p < 75) = (60 \<le> p \<and> p < 75))
       \<and> ((80 \<le> p \<and> p < 90) = (75 \<le> p \<and> p < 90))"
    by (simp only: spec_stage_table_def list.pred_inject prod.case active_by_step
          simp_thms)
  then show ?thesis
    by (simp only: a b c de_Morgan_disj)
qed

lemma completed_agrees_with_table:
  "list_all (\<lambda>(i, lo, hi). (''completed'' \<in> stepClasses (updateProgress p s st) i) = (hi \<le> p))
     spec_stage_table"
proof -
  have "(''completed'' \<in> stepClasses (updateProgress p s st) i) = (hi \<le> p)"
    if "(i, lo, hi) \<in> set spec_stage_table" for i lo hi
  proof -
    from that have "(i, hi) \<in> set steps"
      unfolding steps_are_upper_bounds by force
    then show ?thesis by (rule updateProgress_completed_iff)
  qed
  then show ?thesis by (auto simp: list_all_iff)
qed


text \<open>
  C1. At progress 40 the Summarize stage (40--60 in the spec's table) is the stage under
  way, yet its step is marked neither active nor completed, and no step at all is marked
  active: the code tests \<open>threshold - 10\<close>, which is the stage's lower bound only for the
  stages that are ten points wide.
\<close>

theorem updateProgress_40_summarize_unmarked:
  "(''step-summarize'', 40, 60) \<in> set spec_stage_table
   \<and> ''active'' \<notin> stepClasses (updateProgress 40 status st) ''step-summarize''
   \<and> ''completed'' \<notin> stepClasses (updateProgress 40 status st) ''step-summarize''
   \<and> list_all (\<lambda>step. ''active'' \<notin> stepClasses (updateProgress 40 status st) (fst step)) steps"
proof -
  have tbl: "(''step-summarize'', 40, 60) \<in> set spec_stage_table"
    by (simp add: spec_stage_table_def)
  have mem: "(''step-summarize'', 60) \<in> set steps"
    by (simp add: steps_def)
  have a: "''active'' \<notin> stepClasses (updateProgress 40 status st) ''step-summarize''"
    using updateProgress_active_iff [OF mem, of 40 status st] by simp
  have c: "''completed'' \<notin> stepClasses (updateProgress 40 status st) ''step-summarize''"
    using updateProgress_completed_iff [OF mem, of 40 status st] by simp
  have "''active'' \<notin> stepClasses (updateProgress 40 status st) (fst step)"
    if "step \<in> set steps" for step
  proof -
    from that have m: "(fst step, snd step) \<in> set steps" by simp
    from that have "snd step - 10 > 40 \<or> snd step \<le> 40"
      by (auto simp: steps_def)
    then show ?thesis
      using updateProgress_active_iff [OF m, of 40 status st] by auto
  qed
  then have "list_all (\<lambda>step. ''active'' \<notin> stepClasses (updateProgress 40 status st) (fst step)) steps"
    by (simp add: list_all_iff)
  with tbl a c show ?thesis by simp
qed

subsection \<open>checkJobStatus and the polling loop\<close>











subsection \<open>displaySuggestedQuestions\<close>

text \<open>
  C6. Whatever list of suggestions is displayed, the container then shows at most six
  chips: the first six suggestions, in the order given (and nothing is shown on a page
  without the container).
\<close>

theorem displaySuggestedQuestions_cap:
  "(case suggestedQuestions (displaySuggestedQuestions suggestions st) of
      None \<Rightarrow> suggestedQuestions st = None
    | Some shown \<Rightarrow>
        shown = take 6 suggestions \<and> length shown \<le> 6 \<and> prefix shown suggestions)"
  by (simp add: displaySuggestedQuestions_def take_is_prefix split: option.splits)

subsection \<open>sendMessage\<close>

text \<open>
  C7. When the question is blank after trimming, \<open>sendMessage\<close> returns at its first
  \<open>return\<close> and the widget's state is unchanged: no request was issued, the transcript,
  the input and the button are as before. The send button's handler then leaves exactly
  its own click counters changed.
\<close>

theorem sendMessage_empty_question:
  assumes "chatInput st = Some inp" and "trim (el_value inp) = []"
  shows "sendMessage r st = (EmptyQuestion, st)
       \<and> runHandler now r ev SendOnClick st = countSend now st"
  using assms by (simp add: sendMessage_def countSend_def)

theorem sendMessage_empty_question_witness:
  "chatInput blank_question_page = Some \<lparr>el_value = ''  '', el_disabled = False\<rparr>
   \<and> trim (el_value \<lparr>el_value = ''  '', el_disabled = False\<rparr>) = []
   \<and> sendMessage (ChatOk (Some (''hello'', None))) blank_question_page
       = (EmptyQuestion, blank_question_page)
   \<and> requests (snd (sendMessage (ChatOk (Some (''hello'', None))) blank_question_page)) = []"
  using sendMessage_empty_question
          [of blank_question_page "\<lparr>el_value = ''  '', el_disabled = False\<rparr>"
              "ChatOk (Some (''hello'', None))"]
  by (simp add: blank_question_page_def loaded_chat_page_def trim_def isWhiteSpace_def)

subsection \<open>initializeChatbot and the listeners\<close>

lemma displaySuggestedQuestions_frame:
  "listeners (displaySuggestedQuestions qs st) = listeners st"
  "chatbotInitialized (displaySuggestedQuestions qs st) = chatbotInitialized st"
  by (simp_all add: displaySuggestedQuestions_def split: option.splits)

lemma loadSuggestedQuestions_frame:
  "listeners (loadSuggestedQuestions j r st) = listeners st"
  "chatbotInitialized (loadSuggestedQuestions j r st) = chatbotInitialized st"
  by (simp_all add: loadSuggestedQuestions_def Let_def displaySuggestedQuestions_frame
        split: suggestions_response.splits option.splits)

lemma initializeChatbot_initialized: "chatbotInitialized (initializeChatbot j r st)"
  by (simp add: initializeChatbot_def Let_def loadSuggestedQuestions_frame split: option.splits)

lemma initializeChatbot_listeners_kept:
  "chatbotInitialized st \<Longrightarrow> listeners (initializeChatbot j r st) = listeners st"
  by (simp add: initializeChatbot_def Let_def loadSuggestedQuestions_frame split: option.splits)

lemma initializeChatbot_listeners_first:
  "\<not> chatbotInitialized st \<Longrightarrow>
   listeners (initializeChatbot j r st) = listeners st
   \<or> listeners (initializeChatbot j r st) = listeners st @ chatbotListeners"
  by (auto simp add: initializeChatbot_def Let_def loadSuggestedQuestions_frame
        setupChatbotListeners_def split: option.splits)

lemma wiring_frame:
  "listeners (addMessageToChat txt who st) = listeners st"
  "chatbotInitialized (addMessageToChat txt who st) = chatbotInitialized st"
  "listeners (removeTypingIndicator st) = listeners st"
  "chatbotInitialized (removeTypingIndicator st) = chatbotInitialized st"
  "listeners (snd (addTypingIndicator st)) = listeners st"
  "chatbotInitialized (snd (addTypingIndicator st)) = chatbotInitialized st"
  by (simp_all add: addMessageToChat_def removeTypingIndicator_def addTypingIndicator_def
        split: option.splits)

lemma wiring_chatCatch:
  "listeners (snd (chatCatch ind st)) = listeners st"
  "chatbotInitialized (snd (chatCatch ind st)) = chatbotInitialized st"
  by (simp_all add: chatCatch_def wiring_frame)

lemma wiring_chatTry:
  "listeners (snd (chatTry r ind st)) = listeners st"
  "chatbotInitialized (snd (chatTry r ind st)) = chatbotInitialized st"
  by (simp_all add: chatTry_def wiring_chatCatch wiring_frame displaySuggestedQuestions_frame
        Let_def split: chat_response.splits option.splits prod.splits)

lemma wiring_sendMessage:
  "listeners (snd (sendMessage r st)) = listeners st"
  "chatbotInitialized (snd (sendMessage r st)) = chatbotInitialized st"
  by (simp_all add: sendMessage_def Let_def split_beta wiring_frame wiring_chatTry
        split: option.splits)

lemma wiring_runHandler:
  "listeners (runHandler now r ev h st) = listeners st
   \<and> chatbotInitialized (runHandler now r ev h st) = chatbotInitialized st"
  by (cases h)
     (simp_all add: wiring_sendMessage countSend_def
        split: option.splits ui_event.splits element.splits)

lemma wiring_fold:
  "listeners (fold (runHandler now r ev) hs st) = listeners st
   \<and> chatbotInitialized (fold (runHandler now r ev) hs st) = chatbotInitialized st"
  by (induction hs arbitrary: st) (simp_all add: wiring_runHandler)

lemma wiring_dispatch:
  "listeners (dispatch now r ev st) = listeners st"
  "chatbotInitialized (dispatch now r ev st) = chatbotInitialized st"
  by (simp_all add: dispatch_def wiring_fold)

lemma wired_act: "wired st \<Longrightarrow> wired (act a st)"
proof (cases a)
  case (Initialize j r)
  assume w: "wired st"
  show ?thesis
  proof (cases "chatbotInitialized st")
    case True
    with w Initialize show ?thesis
      by (simp add: wired_def initializeChatbot_listeners_kept initializeChatbot_initialized)
  next
    case False
    with w have "listeners st = []" by (simp add: wired_def)
    with initializeChatbot_listeners_first [OF False, of j r] Initialize show ?thesis
      by (auto simp: wired_def initializeChatbot_initialized)
  qed
next
  case (UserEvent now r ev)
  assume "wired st"
  with UserEvent show ?thesis by (simp add: wired_def wiring_dispatch)
qed

lemma initialized_act: "chatbotInitialized st \<Longrightarrow> chatbotInitialized (act a st)"
  by (cases a) (simp_all add: initializeChatbot_initialized wiring_dispatch)

lemma setupRuns_initialized: "chatbotInitialized st \<Longrightarrow> setupRuns as st = 0"
  by (induction as arbitrary: st) (simp_all add: initialized_act split: page_action.splits)

lemma setupRuns_le: "setupRuns as st \<le> 1"
proof (induction as arbitrary: st)
  case Nil
  show ?case by simp
next
  case (Cons a as)
  show ?case
  proof (cases a)
    case (Initialize j r)
    have "setupRuns as (initializeChatbot j r st) = 0"
      by (rule setupRuns_initialized) (rule initializeChatbot_initialized)
    with Initialize show ?thesis by simp
  next
    case (UserEvent now r ev)
    with Cons.IH [of "dispatch now r ev st"] show ?thesis by simp
  qed
qed

lemma wired_runPage: "wired st \<Longrightarrow> wired (runPage as st)"
  unfolding runPage_def by (induction as arbitrary: st) (simp_all add: wired_act)


lemma sendMessageCalls_chatbotListeners: "sendMessageCalls chatbotListeners ev \<le> 1"
proof (cases ev)
  case (Click e)
  then show ?thesis
  proof (cases e)
    case (Target t)
    with Click show ?thesis
      by (cases t) (simp_all add: sendMessageCalls_def handlersFor_def chatbotListeners_def)
  next
    case (Chip q)
    with Click show ?thesis
      by (simp add: sendMessageCalls_def handlersFor_def chatbotListeners_def)
  next
    case Elsewhere
    with Click show ?thesis
      by (simp add: sendMessageCalls_def handlersFor_def chatbotListeners_def)
  qed
next
  case (Keypress k sh)
  then show ?thesis
    by (simp add: sendMessageCalls_def handlersFor_def chatbotListeners_def)
qed

lemma registrations_chatbotListeners: "registrations chatbotListeners t ty \<le> 1"
  by (cases t) (simp_all add: registrations_def chatbotListeners_def)

lemma requests_frame:
  "requests (addMessageToChat txt who st) = requests st"
  "requests (removeTypingIndicator st) = requests st"
  "requests (displaySuggestedQuestions qs st) = requests st"
  "requests (snd (addTypingIndicator st)) = requests st"
  by (simp_all add: addMessageToChat_def removeTypingIndicator_def
        displaySuggestedQuestions_def addTypingIndicator_def split: option.splits)

lemma requests_chatCatch: "requests (snd (chatCatch ind st)) = requests st"
  by (simp add: chatCatch_def requests_frame)

lemma requests_chatTry: "requests (snd (chatTry r ind st)) = requests st"
  by (simp add: chatTry_def requests_chatCatch requests_frame Let_def
        split: chat_response.splits option.splits prod.splits)

lemma requests_sendMessage:
  "length (requests (snd (sendMessage r st))) \<le> Suc (length (requests st))"
  by (simp add: sendMessage_def Let_def split_beta requests_frame requests_chatTry
        split: option.splits)

lemma requests_runHandler:
  "length (requests (runHandler now r ev h st))
     \<le> length (requests st) + (if callsSendMessage ev h then 1 else 0)"
proof (cases h)
  case SendOnClick
  have "requests (countSend now st) = requests st" by (simp add: countSend_def)
  with requests_sendMessage [of r "countSend now st"] SendOnClick show ?thesis by simp
next
  case SendOnEnter
  have "requests (countSend now st) = requests st" by (simp add: countSend_def)
  with requests_sendMessage [of r "countSend now st"] SendOnEnter show ?thesis by simp
next
  case SendOnSuggestion
  show ?thesis
  proof (cases "\<exists>q. ev = Click (Chip q)")
    case True
    then obtain q where ev: "ev = Click (Chip q)" by blast
    let ?st = "st\<lparr>chatInput := map_option (\<lambda>i. i\<lparr>el_value := q\<rparr>) (chatInput st)\<rparr>"
    have "requests ?st = requests st" by simp
    with requests_sendMessage [of r ?st] SendOnSuggestion ev show ?thesis by simp
  next
    case False
    with SendOnSuggestion show ?thesis
      by (auto split: ui_event.splits element.splits)
  qed
qed (simp_all split: option.splits)

lemma requests_fold_runHandler:
  "length (requests (fold (runHandler now r ev) hs st))
     \<le> length (requests st) + length (filter (callsSendMessage ev) hs)"
proof (induction hs arbitrary: st)
  case Nil
  show ?case by simp
next
  case (Cons h hs)
  from Cons.IH [of "runHandler now r ev h st"] requests_runHandler [of now r ev h st]
  show ?case by (simp split: if_splits)
qed

lemma requests_dispatch:
  "length (requests (dispatch now r ev st))
     \<le> length (requests st) + sendMessageCalls (listeners st) ev"
  by (simp add: dispatch_def sendMessageCalls_def requests_fold_runHandler)

text \<open>
  C10. From a page on which no listener is registered yet (as when the script is loaded),
  over any sequence of \<open>initializeChatbot\<close> calls (any job ids, \<open>null\<close> included, any
  replies) and user events in between: \<open>setupChatbotListeners\<close> runs at most once; every
  element has at most one listener per event type; one user event triggers at most one
  call of \<open>sendMessage\<close>, hence at most one chat request.
\<close>

theorem listeners_registered_once:
  assumes "listeners st = []"
  shows "setupRuns actions st \<le> 1
       \<and> registrations (listeners (runPage actions st)) t ty \<le> 1
       \<and> sendMessageCalls (listeners (runPage actions st)) ev \<le> 1
       \<and> length (requests (dispatch now r ev (runPage actions st)))
           \<le> length (requests (runPage actions st)) + 1"
proof -
  let ?st = "runPage actions st"
  from assms have "wired st" by (simp add: wired_def)
  then have "wired ?st" by (rule wired_runPage)
  then have ls: "listeners ?st = [] \<or> listeners ?st = chatbotListeners"
    by (auto simp: wired_def)
  have runs: "setupRuns actions st \<le> 1"
    by (rule setupRuns_le)
  have regs: "registrations (listeners ?st) t ty \<le> 1"
    using ls registrations_chatbotListeners [of t ty] by (auto simp: registrations_def)
  have calls1: "sendMessageCalls (listeners ?st) ev \<le> 1"
    using ls sendMessageCalls_chatbotListeners [of ev]
    by (auto simp: sendMessageCalls_def handlersFor_def)
  from requests_dispatch [of now r ev ?st] calls1
  have "length (requests (dispatch now r ev ?st)) \<le> length (requests ?st) + 1"
    by simp
  with runs regs calls1 show ?thesis by simp
qed

theorem listeners_registered_once_witness:
  "listeners loaded_chat_page = []
   \<and> setupRuns
        [Initialize None SuggestionsNotOk,
         UserEvent ''12:00'' ChatFetchFailed (Click (Target ToggleChatBtn)),
         Initialize (Some ''job-1'') (SuggestionsData None),
         Initialize (Some ''job-2'') SuggestionsFetchFailed] loaded_chat_page \<le> 1
   \<and> registrations
        (listeners (runPage
           [Initialize None SuggestionsNotOk,
            UserEvent ''12:00'' ChatFetchFailed (Click (Target ToggleChatBtn)),
            Initialize (Some ''job-1'') (SuggestionsData None),
            Initialize (Some ''job-2'') SuggestionsFetchFailed] loaded_chat_page))
        SendChatBtn ''click'' \<le> 1
   \<and> sendMessageCalls
        (listeners (runPage
           [Initialize None SuggestionsNotOk,
            UserEvent ''12:00'' ChatFetchFailed (Click (Target ToggleChatBtn)),
            Initialize (Some ''job-1'') (SuggestionsData None),
            Initialize (Some ''job-2'') SuggestionsFetchFailed] loaded_chat_page))
        (Click (Target SendChatBtn)) \<le> 1"
  using listeners_registered_once
          [of loaded_chat_page
              "[Initialize None SuggestionsNotOk,
                UserEvent ''12:00'' ChatFetchFailed (Click (Target ToggleChatBtn)),
                Initialize (Some ''job-1'') (SuggestionsData None),
                Initialize (Some ''job-2'') SuggestionsFetchFailed]"
              SendChatBtn "''click''" "Click (Target SendChatBtn)" "''12:01''" ChatFetchFailed]
  by (simp add: loaded_chat_page_def)

subsection \<open>The client's read operations\<close>

lemma catch_return_Inr: "\<exists>v. catch_return a d = Inr v"
  by (cases a) (simp_all add: catch_return_def)

text \<open>
  C8. Whatever the service does and whatever the deserializer does, the four read-style
  operations complete with a value and never with an exception; when the request throws
  or the reply's status is not a success, \<open>GetJobStatusAsync\<close> and \<open>GetAnalysisDataAsync\<close>
  return \<open>null\<close>, \<open>GetChatSuggestionsAsync\<close> the empty list and \<open>ClearChatHistoryAsync\<close>
  \<open>false\<close>.
\<close>

theorem read_operations_never_throw:
  "(\<exists>v. fst (GetJobStatusAsync ReadJobStatus jobId hc) = Inr v)
   \<and> (\<exists>v. fst (GetAnalysisDataAsync ReadAnalysisResults jobId hc) = Inr v)
   \<and> (\<exists>v. fst (GetChatSuggestionsAsync jobId hc) = Inr v)
   \<and> (\<exists>v. fst (ClearChatHistoryAsync jobId hc) = Inr v)
   \<and> (upstreamFailure (respond hc (Request ''GET'' (''/api/status/'' @ jobId) NoBody)) \<longrightarrow>
        fst (GetJobStatusAsync ReadJobStatus jobId hc) = Inr None)
   \<and> (upstreamFailure
         (respond hc (Request ''GET'' (''/api/results/'' @ jobId @ ''/data'') NoBody)) \<longrightarrow>
        fst (GetAnalysisDataAsync ReadAnalysisResults jobId hc) = Inr None)
   \<and> (upstreamFailure
         (respond hc (Request ''GET'' (''/api/results/'' @ jobId @ ''/chat/suggestions'') NoBody)) \<longrightarrow>
        fst (GetChatSuggestionsAsync jobId hc) = Inr [])
   \<and> (upstreamFailure
         (respond hc (Request ''DELETE'' (''/api/results/'' @ jobId @ ''/chat/history'') NoBody)) \<longrightarrow>
        fst (ClearChatHistoryAsync jobId hc) = Inr False)"
proof (intro conjI impI)
  show "\<exists>v. fst (GetJobStatusAsync ReadJobStatus jobId hc) = Inr v"
    by (simp add: GetJobStatusAsync_def send_def catch_return_Inr)
  show "\<exists>v. fst (GetAnalysisDataAsync ReadAnalysisResults jobId hc) = Inr v"
    by (simp add: GetAnalysisDataAsync_def send_def catch_return_Inr)
  show "\<exists>v. fst (GetChatSuggestionsAsync jobId hc) = Inr v"
    by (simp add: GetChatSuggestionsAsync_def send_def catch_return_Inr)
  show "\<exists>v. fst (ClearChatHistoryAsync jobId hc) = Inr v"
    by (simp add: ClearChatHistoryAsync_def send_def catch_return_Inr)
next
  assume "upstreamFailure (respond hc (Request ''GET'' (''/api/status/'' @ jobId) NoBody))"
  then show "fst (GetJobStatusAsync ReadJobStatus jobId hc) = Inr None"
    by (cases "respond hc (Request ''GET'' (''/api/status/'' @ jobId) NoBody)")
       (simp_all add: GetJobStatusAsync_def send_def catch_return_def)
next
  assume "upstreamFailure
            (respond hc (Request ''GET'' (''/api/results/'' @ jobId @ ''/data'') NoBody))"
  then show "fst (GetAnalysisDataAsync ReadAnalysisResults jobId hc) = Inr None"
    by (cases "respond hc (Request ''GET'' (''/api/results/'' @ jobId @ ''/data'') NoBody)")
       (simp_all add: GetAnalysisDataAsync_def send_def catch_return_def)
next
  assume "upstreamFailure
            (respond hc
               (Request ''GET'' (''/api/results/'' @ jobId @ ''/chat/suggestions'') NoBody))"
  then show "fst (GetChatSuggestionsAsync jobId hc) = Inr []"
    by (cases "respond hc
                 (Request ''GET'' (''/api/results/'' @ jobId @ ''/chat/suggestions'') NoBody)")
       (simp_all add: GetChatSuggestionsAsync_def send_def catch_return_def)
next
  assume "upstreamFailure
            (respond hc
               (Request ''DELETE'' (''/api/results/'' @ jobId @ ''/chat/history'') NoBody))"
  then show "fst (ClearChatHistoryAsync jobId hc) = Inr False"
    by (cases "respond hc
                 (Request ''DELETE'' (''/api/results/'' @ jobId @ ''/chat/history'') NoBody)")
       (simp_all add: ClearChatHistoryAsync_def send_def catch_return_def)
qed

theorem read_operations_never_throw_witness:
  "upstreamFailure
     (respond (service (Reply 503 None)) (Request ''GET'' (''/api/status/'' @ ''job-1'') NoBody))
   \<and> fst (GetJobStatusAsync (\<lambda>content. Inl JsonException) ''job-1'' (service (Reply 503 None)))
       = Inr None
   \<and> fst (GetAnalysisDataAsync (\<lambda>content. Inl JsonException) ''job-1''
            (service (Reply 503 None)))
       = Inr None
   \<and> fst (GetChatSuggestionsAsync ''job-1'' (service (Reply 503 None))) = Inr []
   \<and> fst (ClearChatHistoryAsync ''job-1'' (service (Reply 503 None))) = Inr False"
  using read_operations_never_throw
          [of "\<lambda>content. Inl JsonException" "''job-1''" "service (Reply 503 None)"
              "\<lambda>content. Inl JsonException"]
  by (simp add: service_def IsSuccessStatusCode_def)

subsection \<open>SendChatMessageAsync\<close>





subsection \<open>The analyze endpoint\<close>

text \<open>The client itself forwards every request it is given.\<close>

lemma StartAnalysisAsync_sent:
  "sent (snd (StartAnalysisAsync rd request hc))
     = sent hc @ [Request ''POST'' ''/api/analyze'' (AnalyzeBody request)]"
  by (simp add: StartAnalysisAsync_def send_def)

lemma analysisRequests_append:
  "analysisRequests (xs @ ys) = analysisRequests xs @ analysisRequests ys"
  by (induction xs rule: analysisRequests.induct) simp_all

lemma PostAnalyze_sent:
  "analysisRequests (sent (snd (PostAnalyze usable rd request hc)))
     = analysisRequests (sent hc) @ (if usable request then [request] else [])"
  by (simp add: PostAnalyze_def split_beta StartAnalysisAsync_sent analysisRequests_append)

lemma PostAnalyzeAll_sent:
  "analysisRequests (sent (snd (PostAnalyzeAll usable rd reqs hc)))
     = analysisRequests (sent hc) @ filter usable reqs"
proof (induction reqs arbitrary: hc)
  case Nil
  show ?case by simp
next
  case (Cons request rest)
  from Cons.IH [of "snd (PostAnalyze usable rd request hc)"]
  show ?case by (simp add: split_beta PostAnalyze_sent)
qed

lemma PostAnalyzeAll_replies:
  "length (fst (PostAnalyzeAll usable rd reqs hc)) = length reqs
   \<and> (\<forall>i < length reqs. \<not> usable (reqs ! i) \<longrightarrow>
         fst (PostAnalyzeAll usable rd reqs hc) ! i = BadRequest400)"
proof (induction reqs arbitrary: hc)
  case Nil
  show ?case by simp
next
  case (Cons request rest)
  from Cons.IH [of "snd (PostAnalyze usable rd request hc)"]
  show ?case
    by (auto simp add: split_beta PostAnalyze_def nth_Cons split: nat.splits)
qed

text \<open>
  C2. A request that lacks a usable source is answered 400 and the client is left as it
  was; over any run of requests, each one without a usable source gets 400, and the
  analysis requests the client has sent to the service are exactly the usable ones, in
  order: none of the others reaches the service.
\<close>

theorem unusable_requests_never_forwarded:
  assumes "sent hc = []"
  shows "(\<not> usableSource request \<longrightarrow>
            PostAnalyze usableSource ReadJobStatus request hc = (BadRequest400, hc))
       \<and> length (fst (PostAnalyzeAll usableSource ReadJobStatus reqs hc)) = length reqs
       \<and> (\<forall>i < length reqs. \<not> usableSource (reqs ! i) \<longrightarrow>
            fst (PostAnalyzeAll usableSource ReadJobStatus reqs hc) ! i = BadRequest400)
       \<and> analysisRequests (sent (snd (PostAnalyzeAll usableSource ReadJobStatus reqs hc)))
            = filter usableSource reqs"
  using assms PostAnalyzeAll_replies [of usableSource ReadJobStatus reqs hc]
    PostAnalyzeAll_sent [of usableSource ReadJobStatus reqs hc]
  by (simp add: PostAnalyze_def)

theorem unusable_requests_never_forwarded_witness:
  "sent (service (Reply 200 (Some JNull))) = []
   \<and> \<not> url_given (request_for None)
   \<and> PostAnalyze url_given (\<lambda>content. Inr None) (request_for None)
        (service (Reply 200 (Some JNull)))
       = (BadRequest400, service (Reply 200 (Some JNull)))
   \<and> analysisRequests
        (sent (snd (PostAnalyzeAll url_given (\<lambda>content. Inr None)
                      [request_for None, request_for (Some ''http://example.org''),
                       request_for (Some [])]
                      (service (Reply 200 (Some JNull))))))
       = [request_for (Some ''http://example.org'')]"
proof -
  let ?hc = "service (Reply 200 (Some JNull))"
  let ?reqs = "[request_for None, request_for (Some ''http://example.org''),
                request_for (Some [])]"
  have h: "sent ?hc = []"
    by (simp add: service_def)
  have n: "\<not> url_given (request_for None)"
    by (simp add: url_given_def request_for_def)
  have f: "filter url_given ?reqs = [request_for (Some ''http://example.org'')]"
    by (simp add: url_given_def request_for_def)
  note t = unusable_requests_never_forwarded
             [OF h, of url_given "request_for None" "\<lambda>content. Inr None" ?reqs]
  from t n have a: "PostAnalyze url_given (\<lambda>content. Inr None) (request_for None) ?hc
                      = (BadRequest400, ?hc)"
    by blast
  from t have "analysisRequests
                 (sent (snd (PostAnalyzeAll url_given (\<lambda>content. Inr None) ?reqs ?hc)))
               = filter url_given ?reqs"
    by blast
  with f have b: "analysisRequests
                 (sent (snd (PostAnalyzeAll url_given (\<lambda>content. Inr None) ?reqs ?hc)))
               = [request_for (Some ''http://example.org'')]"
    by (simp only:)
  from h n a b show ?thesis by blast
qed

subsection \<open>The Job Manager\<close>

lemma UpdateProgress_unknown:
  "jobs jobId = None \<Longrightarrow> UpdateProgress i p m jobs jobId = None"
  by (cases "i = jobId") (auto simp add: UpdateProgress_def split: option.splits)

lemma UpdateProgress_mono:
  "jobs jobId = Some j \<Longrightarrow>
   \<exists>j'. UpdateProgress i p m jobs jobId = Some j' \<and> job_progress j \<le> job_progress j'"
  by (cases "i = jobId") (auto simp: UpdateProgress_def split: option.splits)

lemma observedProgress_lower_bound:
  "jobs jobId = Some j \<Longrightarrow>
   \<forall>p \<in> set (observedProgress jobId calls jobs). job_progress j \<le> p"
proof (induction calls arbitrary: jobs j)
  case Nil
  show ?case by simp
next
  case (Cons c calls)
  show ?case
  proof (cases c)
    case (Update i p m)
    from UpdateProgress_mono [of jobs jobId j i p m] Cons.prems
    obtain j' where j': "UpdateProgress i p m jobs jobId = Some j'"
        "job_progress j \<le> job_progress j'"
      by blast
    from Cons.IH [of "UpdateProgress i p m jobs" j'] j' Update show ?thesis by fastforce
  next
    case (Poll i)
    with Cons.IH [of jobs j] Cons.prems show ?thesis
      by (auto simp: GetStatus_def split: option.splits)
  qed
qed

text \<open>
  C3. Over every run of progress updates (for this job and for others) and status polls,
  the progress values a poller of one job sees never decrease; an update that reports
  less than the job's progress leaves the job table as it was.
\<close>

theorem observed_progress_never_decreases:
  "sorted (observedProgress jobId calls jobs)
   \<and> (jobs jobId = Some j \<and> p < job_progress j \<longrightarrow>
        UpdateProgress jobId p m jobs = jobs)"
proof
  show "sorted (observedProgress jobId calls jobs)"
  proof (induction calls arbitrary: jobs)
    case Nil
    show ?case by simp
  next
    case (Cons c calls)
    show ?case
    proof (cases c)
      case (Update i q msg)
      with Cons.IH show ?thesis by simp
    next
      case (Poll i)
      show ?thesis
      proof (cases "jobs i")
        case None
        with Poll Cons.IH show ?thesis by (simp add: GetStatus_def)
      next
        case (Some k)
        with Poll Cons.IH [of jobs] observedProgress_lower_bound [of jobs jobId k calls]
        show ?thesis by (auto simp: GetStatus_def)
      qed
    qed
  qed
next
  show "jobs jobId = Some j \<and> p < job_progress j \<longrightarrow> UpdateProgress jobId p m jobs = jobs"
    by (simp add: UpdateProgress_def)
qed

theorem observed_progress_never_decreases_witness:
  "observedProgress ''job-1''
     [Poll ''job-1'', Update ''job-1'' 60 None, Poll ''job-1'', Update ''job-1'' 20 None,
      Poll ''job-1''] one_job = [40, 60, 60]
   \<and> sorted (observedProgress ''job-1''
       [Poll ''job-1'', Update ''job-1'' 60 None, Poll ''job-1'', Update ''job-1'' 20 None,
        Poll ''job-1''] one_job)
   \<and> UpdateProgress ''job-1'' 20 None one_job = one_job"
  using observed_progress_never_decreases
          [of "''job-1''"
              "[Poll ''job-1'', Update ''job-1'' 60 None, Poll ''job-1'',
                Update ''job-1'' 20 None, Poll ''job-1'']"
              one_job
              "\<lparr>job_id = ''job-1'', job_status = Running, job_progress = 40,
                 job_message = None, job_resultRef = None, job_error = None\<rparr>"
              20 None]
  by (simp add: one_job_def UpdateProgress_def GetStatus_def terminal_def)


end
